theory Spec2Isabelle
  imports Complex_Main "HOL-Library.AList" "HOL-Library.List_Lexorder" "HOL-Library.Char_ord"
begin

section \<open>Data model\<close>

text \<open>
  The simulation keeps a population of \<^verbatim>\<open>Agent\<close> objects and a list of
  \<^verbatim>\<open>ObligationVector\<close> objects that point at two agents each. Agents are shared
  and mutated in place, so the model keeps them in a store. Every agent is created by
  \<^verbatim>\<open>new Agent(globalAgentIndex++)\<close>, so the id names the object: the store is
  indexed by the id, and \<^verbatim>\<open>a.id\<close> of a reference is the reference itself.
  JavaScript numbers are modelled by exact reals and naturals.
\<close>

datatype status = Pending | Fulfilled | Denied | Expired | Repaired

datatype js_error = TypeError

type_synonym agent_ref = nat

text \<open>
  The fields of \<^verbatim>\<open>Agent\<close> (agent.js) that the modelled operations read or write.
  \<open>acks n\<close> is the truthiness of the property \<^verbatim>\<open>`${n}Acknowledges`\<close>; the two
  \<^verbatim>\<open>Map\<close>s are \<open>trustMap\<close> (only \<^verbatim>\<open>get\<close>/\<^verbatim>\<open>set\<close> are used on it here)
  and \<open>relationalLedger\<close>, an association list in insertion order because the
  moral-repair pass iterates over it.
\<close>

record agent =
  acks :: "string \<Rightarrow> bool"
  normPreference :: string
  scenarioGroup :: string
  affiliation :: string
  pos :: "real \<times> real"
  trustMap :: "agent_ref \<rightharpoonup> real"
  relationalLedger :: "(agent_ref \<times> status) list"
  obligationAttempts :: nat
  obligationSuccesses :: nat
  contradictionDebt :: nat
  internalConflict :: nat
  culturalMomentum :: real
  birthGeneration :: nat

text \<open>An entry of \<^verbatim>\<open>obligationLog\<close>; \<open>le_norm = None\<close> is \<^verbatim>\<open>undefined\<close>.\<close>

record log_entry =
  le_status :: status
  le_norm :: "string option"
  le_from :: agent_ref
  le_to :: agent_ref
  le_generation :: nat

text \<open>
  \<^verbatim>\<open>ObligationVector\<close>. The constructor of agent.js sets the fields from
  \<open>source\<close> to \<open>resolvedAt\<close>. \<^verbatim>\<open>defaultEnforce\<close> (norms.js) reads and writes three further
  properties, \<^verbatim>\<open>normType\<close>, \<^verbatim>\<open>fulfilled\<close> and \<^verbatim>\<open>expiration\<close>, which the
  other \<^verbatim>\<open>ObligationVector\<close> class of the repository defines and this one does not:
  \<open>None\<close> is \<^verbatim>\<open>undefined\<close>, and an undefined \<^verbatim>\<open>fulfilled\<close> is falsy.
  A missing (\<^verbatim>\<open>null\<close>) agent reference is \<open>None\<close>.
\<close>

record vector =
  source :: "agent_ref option"
  target :: "agent_ref option"
  strength :: real
  norm :: string
  status :: status
  age :: nat
  maxAge :: nat
  animT :: real
  animSpeed :: real
  spawnFrame :: nat
  resolveOnArrival :: bool
  resolvedAt :: "nat option"
  normType :: "string option"
  fulfilled :: bool
  expiration :: "nat option"

text \<open>
  An enforcement function of the registry. Every entry that the sources register is the
  closure \<^verbatim>\<open>(vec, state) => defaultEnforce(vec, state)\<close>. The registry is open:
  \<open>CustomRule\<close> stands for a function registered from outside that changes nothing
  itself and returns a value computed from the vector and the generation (\<open>None\<close> is
  \<^verbatim>\<open>undefined\<close>); \<^verbatim>\<open>ObligationVector.enforce\<close> takes the value as the status
  that the rule asks for.
\<close>

datatype enforce_fn = DefaultWrapper | CustomRule "vector \<Rightarrow> nat \<Rightarrow> string option"

record norm_def =
  color :: "nat list"
  enforceFn :: enforce_fn
  acknowledgeFn :: "agent \<Rightarrow> bool"

type_synonym norm_registry = "string \<rightharpoonup> norm_def"

text \<open>The parts of \<^verbatim>\<open>SIM_CONFIG\<close> (config.js) that the modelled operations read.\<close>

record config =
  numAgents :: nat
  normTypes :: "string list"
  ob_countMultiplier :: nat
  ob_maxVectors :: nat
  ob_animSpeed :: "real option"
  er_expirationBase :: nat
  er_expirationRandom :: nat
  er_proximityThreshold :: real
  tg_increment :: real
  tg_decrement :: real
  rp_chance :: real
  rp_mutationBase :: real
  rp_maxConflictMutation :: real
  rp_preferenceInheritance :: real
  dt_baseRate :: real
  dt_conflictWeight :: real
  dt_oldAgeBoost :: real
  dt_ageThreshold :: nat
  repairChance :: real

definition SIM_CONFIG :: config where
  "SIM_CONFIG = \<lparr> numAgents = 100,
     normTypes = [''legal'', ''apriori'', ''care'', ''epistemic''],
     ob_countMultiplier = 2, ob_maxVectors = 500,
     ob_animSpeed = None,
     er_expirationBase = 10, er_expirationRandom = 10, er_proximityThreshold = 150,
     tg_increment = 1, tg_decrement = 1,
     rp_chance = 25 / 100, rp_mutationBase = 5 / 100, rp_maxConflictMutation = 1 / 10,
     rp_preferenceInheritance = 75 / 100,
     dt_baseRate = 5 / 100, dt_conflictWeight = 1 / 100, dt_oldAgeBoost = 5 / 100,
     dt_ageThreshold = 5,
     repairChance = 1 / 10 \<rparr>"

section \<open>Norm registry (norms.js)\<close>

definition builtin_norm :: "nat list \<Rightarrow> string \<Rightarrow> norm_def" where
  "builtin_norm rgb n =
     \<lparr> color = rgb, enforceFn = DefaultWrapper, acknowledgeFn = (\<lambda>a. acks a n) \<rparr>"

definition normRegistry :: norm_registry where
  "normRegistry =
     [''legal'' \<mapsto> builtin_norm [128, 0, 128] ''legal'',
      ''apriori'' \<mapsto> builtin_norm [0, 0, 255] ''apriori'',
      ''care'' \<mapsto> builtin_norm [0, 150, 0] ''care'',
      ''epistemic'' \<mapsto> builtin_norm [255, 165, 0] ''epistemic'']"

text \<open>\<^verbatim>\<open>registerNorm(name, spec) { normRegistry[name] = spec; }\<close>\<close>

definition registerNorm :: "string \<Rightarrow> norm_def \<Rightarrow> norm_registry \<Rightarrow> norm_registry" where
  "registerNorm name spec reg = reg(name \<mapsto> spec)"

section \<open>Enforcement\<close>

text \<open>
  What an enforcement step works on: the vector itself (\<^verbatim>\<open>this\<close>), the agent
  objects and the array \<^verbatim>\<open>obligationLog\<close> of the shared context.
\<close>

record world =
  vec :: vector
  store :: "agent_ref \<Rightarrow> agent"
  olog :: "log_entry list"

text \<open>
  What it reads besides: the registry, the configuration, the distance function of the
  graphics library (\<^verbatim>\<open>p5.Vector.dist\<close>, a parameter here) and the global
  \<^verbatim>\<open>frameCount\<close> (\<open>None\<close> when it is not a number).
\<close>

record env =
  registry :: norm_registry
  cfg :: config
  vdist :: "real \<times> real \<Rightarrow> real \<times> real \<Rightarrow> real"
  frameCount :: "nat option"

text \<open>\<^verbatim>\<open>(typeof frameCount === 'number') ? frameCount : 0\<close>\<close>

definition now :: "env \<Rightarrow> nat" where
  "now e = (case frameCount e of Some fc \<Rightarrow> fc | None \<Rightarrow> 0)"

text \<open>A property key: \<^verbatim>\<open>obj[undefined]\<close> reads the property named "undefined".\<close>

definition prop_key :: "string option \<Rightarrow> string" where
  "prop_key k = (case k of Some n \<Rightarrow> n | None \<Rightarrow> ''undefined'')"

text \<open>\<^verbatim>\<open>trustMap.get(id) || 0\<close>\<close>

definition trust_of :: "agent \<Rightarrow> agent_ref \<Rightarrow> real" where
  "trust_of a i = (case trustMap a i of Some x \<Rightarrow> x | None \<Rightarrow> 0)"

text \<open>\<^verbatim>\<open>Agent.recordTrust(targetID, fulfilled)\<close>\<close>

definition recordTrust :: "config \<Rightarrow> agent_ref \<Rightarrow> bool \<Rightarrow> agent \<Rightarrow> agent" where
  "recordTrust c targetID ful a =
     (let current = trust_of a targetID;
          delta = (if ful then tg_increment c else - tg_decrement c)
      in a\<lparr>trustMap := (trustMap a)(targetID \<mapsto> current + delta)\<rparr>)"

definition mk_entry :: "status \<Rightarrow> string option \<Rightarrow> agent_ref \<Rightarrow> agent_ref \<Rightarrow> nat \<Rightarrow> log_entry" where
  "mk_entry st n f t g =
     \<lparr> le_status = st, le_norm = n, le_from = f, le_to = t, le_generation = g \<rparr>"

text \<open>\<^verbatim>\<open>source.relationalLedger.set(target.id, st)\<close> on the agent \<open>s\<close> of the store.\<close>

definition ledger_set ::
  "agent_ref \<Rightarrow> agent_ref \<Rightarrow> status \<Rightarrow> (agent_ref \<Rightarrow> agent) \<Rightarrow> (agent_ref \<Rightarrow> agent)" where
  "ledger_set s t st h =
     h(s := (h s)\<lparr>relationalLedger := AList.update t st (relationalLedger (h s))\<rparr>)"

text \<open>\<^verbatim>\<open>source.relationalLedger.has(target.id)\<close>\<close>

definition ledger_has :: "agent \<Rightarrow> agent_ref \<Rightarrow> bool" where
  "ledger_has a t = (map_of (relationalLedger a) t \<noteq> None)"

subsection \<open>defaultEnforce (norms.js)\<close>

text \<open>
  The function reads \<^verbatim>\<open>vec.normType\<close> and looks it up in the registry; when the
  registry has no such entry, reading \<^verbatim>\<open>.acknowledgeFn\<close> of \<^verbatim>\<open>undefined\<close>
  throws before anything is changed, and so does reading \<^verbatim>\<open>.pos\<close> of a missing
  agent. It returns no value. The force that it applies to the source agent belongs
  to the motion of the agents, which is not part of the modelled state.
\<close>

definition defaultEnforce :: "env \<Rightarrow> nat \<Rightarrow> world \<Rightarrow> js_error + world" where
  "defaultEnforce e g w =
     (let v = vec w in
      case (source v, target v) of
        (Some s, Some t) \<Rightarrow>
          (let proximity = er_proximityThreshold (cfg e);
               dist = vdist e (pos (store w s)) (pos (store w t));
               n = normType v
           in case registry e (prop_key n) of
                None \<Rightarrow> Inl TypeError
              | Some nd \<Rightarrow>
                  if \<not> acknowledgeFn nd (store w s) \<or> \<not> acknowledgeFn nd (store w t) then
                    (if \<not> ledger_has (store w s) t
                     then Inr (w\<lparr>store := ledger_set s t Denied (store w),
                                  olog := olog w @ [mk_entry Denied n s t g]\<rparr>)
                     else Inr w)
                  else if \<not> fulfilled v \<and>
                          (case expiration v of Some x \<Rightarrow> x \<le> age v | None \<Rightarrow> False) then
                    (if \<not> ledger_has (store w s) t
                     then Inr (w\<lparr>store := ledger_set s t Expired (store w),
                                  olog := olog w @ [mk_entry Expired n s t g]\<rparr>)
                     else Inr w)
                  else
                    (let w1 =
                       (if dist < proximity \<and> \<not> fulfilled v then
                          (let h0 = store w;
                               h1 = h0(s := (h0 s)\<lparr>obligationAttempts := obligationAttempts (h0 s) + 1\<rparr>);
                               h2 = h1(s := (h1 s)\<lparr>obligationSuccesses := obligationSuccesses (h1 s) + 1\<rparr>);
                               currentTrust = trust_of (h2 s) t;
                               h3 = h2(s := (h2 s)\<lparr>trustMap :=
                                      (trustMap (h2 s))(t \<mapsto> currentTrust + tg_increment (cfg e))\<rparr>);
                               h4 = ledger_set s t Fulfilled h3
                           in w\<lparr>vec := v\<lparr>fulfilled := True\<rparr>, store := h4,
                                 olog := olog w @ [mk_entry Fulfilled n s t g]\<rparr>)
                        else w)
                     in Inr (w1\<lparr>vec := (vec w1)\<lparr>age := age (vec w1) + 1\<rparr>\<rparr>)))
      | _ \<Rightarrow> Inl TypeError)"

subsection \<open>ObligationVector.enforce (agent.js)\<close>

text \<open>\<^verbatim>\<open>stepAnimation()\<close>\<close>

definition stepAnimation :: "env \<Rightarrow> vector \<Rightarrow> vector" where
  "stepAnimation e v =
     (if (case frameCount e of Some fc \<Rightarrow> fc < spawnFrame v | None \<Rightarrow> False) then v
      else if animT v < 1 then v\<lparr>animT := min 1 (animT v + animSpeed v)\<rparr>
      else v)"

text \<open>The branch taken when a pending vector has outlived \<^verbatim>\<open>maxAge\<close>.\<close>

definition expire_vector :: "env \<Rightarrow> nat \<Rightarrow> agent_ref \<Rightarrow> agent_ref \<Rightarrow> world \<Rightarrow> world" where
  "expire_vector e g s t w =
     (let v1 = (vec w)\<lparr>status := Expired\<rparr>;
          h1 = ledger_set s t Expired (store w);
          h2 = h1(s := recordTrust (cfg e) t False (h1 s));
          h3 = h2(t := recordTrust (cfg e) s False (h2 t))
      in \<lparr> vec = v1\<lparr>resolvedAt := Some (now e)\<rparr>, store = h3,
           olog = olog w @ [mk_entry Expired (Some (norm v1)) s t g] \<rparr>)"

text \<open>
  The enforcement function that \<^verbatim>\<open>enforce\<close> selects:
  \<^verbatim>\<open>normRegistry[this.norm]?.enforceFn || defaultEnforce\<close>.
\<close>

definition select_enforceFn :: "env \<Rightarrow> vector \<Rightarrow> enforce_fn" where
  "select_enforceFn e v =
     (case registry e (norm v) of Some nd \<Rightarrow> enforceFn nd | None \<Rightarrow> DefaultWrapper)"

text \<open>Calling it: the value it returns and the world it leaves, or the error it throws.\<close>

definition call_enforceFn ::
  "env \<Rightarrow> nat \<Rightarrow> enforce_fn \<Rightarrow> world \<Rightarrow> js_error + (string option \<times> world)" where
  "call_enforceFn e g f w =
     (case f of
        DefaultWrapper \<Rightarrow>
          (case defaultEnforce e g w of
             Inl err \<Rightarrow> Inl err
           | Inr w' \<Rightarrow> Inr (None, w'))
      | CustomRule r \<Rightarrow> Inr (r (vec w) g, w))"

text \<open>\<^verbatim>\<open>['fulfilled', 'denied', 'pending'].includes(result)\<close>\<close>

definition canonical_status :: "string option \<Rightarrow> status option" where
  "canonical_status r =
     (if r = Some ''fulfilled'' then Some Fulfilled
      else if r = Some ''denied'' then Some Denied
      else if r = Some ''pending'' then Some Pending
      else None)"

text \<open>The probabilistic baseline; \<open>rnd\<close> is the value that \<^verbatim>\<open>random()\<close> returns.\<close>

definition baseline_status :: "env \<Rightarrow> real \<Rightarrow> agent_ref \<Rightarrow> agent_ref \<Rightarrow> world \<Rightarrow> status" where
  "baseline_status e rnd s t w =
     (let v = vec w;
          d = vdist e (pos (store w s)) (pos (store w t));
          thr = er_proximityThreshold (cfg e);
          proximityOK = (d < (if thr \<noteq> 0 then thr else 150));
          ackOK = (acks (store w s) (norm v) \<and> acks (store w t) (norm v));
          p = (strength v * (if proximityOK then 1 else 6 / 10)) * (if ackOK then 1 else 5 / 10)
      in if rnd < p then Fulfilled else Denied)"

text \<open>The last block of \<^verbatim>\<open>enforce\<close>, run when the status has become fulfilled or denied.\<close>

definition record_resolution :: "env \<Rightarrow> nat \<Rightarrow> agent_ref \<Rightarrow> agent_ref \<Rightarrow> world \<Rightarrow> world" where
  "record_resolution e g s t w =
     (let v = vec w;
          h0 = store w;
          h1 = h0(s := (h0 s)\<lparr>obligationAttempts := obligationAttempts (h0 s) + 1\<rparr>);
          h2 = (if status v = Fulfilled
                then h1(s := (h1 s)\<lparr>obligationSuccesses := obligationSuccesses (h1 s) + 1\<rparr>)
                else h1);
          h3 = ledger_set s t (status v) h2;
          h4 = h3(s := recordTrust (cfg e) t (status v = Fulfilled) (h3 s));
          h5 = h4(t := recordTrust (cfg e) s (status v = Fulfilled) (h4 t))
      in \<lparr> vec = v\<lparr>resolvedAt := Some (now e)\<rparr>, store = h5,
           olog = olog w @ [mk_entry (status v) (Some (norm v)) s t g] \<rparr>)"

text \<open>
  \<^verbatim>\<open>enforce({ generation, obligationLog })\<close>. A vector that is not pending is left as
  it is; a pending one ages first. The result is \<open>Inr\<close> of the world when the method
  returns, and \<open>Inl\<close> of the error and of the world as it is when the enforcement
  function throws: the vector has aged and its line has advanced by then.
\<close>

definition enforce :: "env \<Rightarrow> real \<Rightarrow> nat \<Rightarrow> world \<Rightarrow> (js_error \<times> world) + world" where
  "enforce e rnd g w =
     (case (source (vec w), target (vec w)) of
        (Some s, Some t) \<Rightarrow>
          if status (vec w) \<noteq> Pending then Inr w
          else
            (let w1 = w\<lparr>vec := (vec w)\<lparr>age := age (vec w) + 1\<rparr>\<rparr> in
             if maxAge (vec w1) < age (vec w1) then Inr (expire_vector e g s t w1)
             else
               (let w2 = w1\<lparr>vec := stepAnimation e (vec w1)\<rparr> in
                if resolveOnArrival (vec w2) \<and> animT (vec w2) < 1 then Inr w2
                else
                  (case call_enforceFn e g (select_enforceFn e (vec w2)) w2 of
                     Inl err \<Rightarrow> Inl (err, w2)
                   | Inr (result, w3) \<Rightarrow>
                       (let st = (case canonical_status result of
                                    Some c \<Rightarrow> c
                                  | None \<Rightarrow> baseline_status e rnd s t w3);
                            w4 = w3\<lparr>vec := (vec w3)\<lparr>status := st\<rparr>\<rparr>
                        in if st = Fulfilled \<or> st = Denied
                           then Inr (record_resolution e g s t w4)
                           else Inr w4))))
      | _ \<Rightarrow> Inr w)"

subsection \<open>ObligationVector.enforce of the class that carries normType\<close>

text \<open>
  The repository has a second \<^verbatim>\<open>ObligationVector\<close> class, whose constructor sets
  \<^verbatim>\<open>normType\<close>, \<^verbatim>\<open>fulfilled\<close>, \<^verbatim>\<open>age\<close> and \<^verbatim>\<open>expiration\<close>. Its
  \<^verbatim>\<open>enforce(state)\<close> looks the norm up in the registry and calls the enforcement
  function of the entry, or \<^verbatim>\<open>defaultEnforce\<close> when there is none; it ignores
  what the function returns.
\<close>

definition enforce_registry :: "env \<Rightarrow> nat \<Rightarrow> world \<Rightarrow> js_error + world" where
  "enforce_registry e g w =
     (case registry e (prop_key (normType (vec w))) of
        Some nd \<Rightarrow>
          (case enforceFn nd of
             DefaultWrapper \<Rightarrow> defaultEnforce e g w
           | CustomRule r \<Rightarrow> Inr w)
      | None \<Rightarrow> defaultEnforce e g w)"

section \<open>The simulation state (sketch.js)\<close>

text \<open>One record of the array \<^verbatim>\<open>log\<close>, as \<^verbatim>\<open>logGeneration\<close> builds it.\<close>

record gen_metrics =
  gm_generation :: nat
  avgConflict :: real
  avgDebt :: real
  totalObligationsIssued :: nat
  totalFulfilled :: nat
  totalDenied :: nat
  totalExpired :: nat
  totalRepaired :: nat
  fulfillmentRate :: real
  avgRI :: real
  repairEvents :: nat
  emergentNorms :: nat

text \<open>
  The module-level variables of sketch.js: the array \<^verbatim>\<open>agents\<close> (references into
  \<open>heap\<close>, which holds the agent objects), \<^verbatim>\<open>obligationVectors\<close>, the set
  \<^verbatim>\<open>hostilePairs\<close> of keys, the two logs and the counters.
\<close>

record sim =
  agents :: "agent_ref list"
  heap :: "agent_ref \<Rightarrow> agent"
  obligationVectors :: "vector list"
  hostilePairs :: "string set"
  obligationLog :: "log_entry list"
  metricsLog :: "gen_metrics list"
  generation :: nat
  globalAgentIndex :: nat

text \<open>
  \<^verbatim>\<open>random(arr)\<close> returns an element of a non-empty array; the draw is a natural
  number, reduced to an index. It is only applied to non-empty lists.
\<close>

definition pick :: "'a list \<Rightarrow> nat \<Rightarrow> 'a" where
  "pick xs k = xs ! (k mod length xs)"

subsection \<open>Moral repair (evolveGeneration)\<close>




subsection \<open>generateObligations\<close>

text \<open>\<^verbatim>\<open>[g1, g2].sort().join('|')\<close>: the default sort compares the strings.\<close>

definition pair_key :: "string \<Rightarrow> string \<Rightarrow> string" where
  "pair_key g1 g2 = (if g2 < g1 then g2 @ ''|'' @ g1 else g1 @ ''|'' @ g2)"

text \<open>
  The random values of one iteration of the loop: the draws for the source, the target
  and the norm, the strength \<^verbatim>\<open>random(0.2, 1.0)\<close>, and the three values that the
  constructor draws (\<^verbatim>\<open>floor(random(expirationRandom))\<close>, \<^verbatim>\<open>random(0.6)\<close> and
  \<^verbatim>\<open>floor(random(0, jitter))\<close>). The generator is not modelled: the values are
  inputs, and a statement about all of them is a statement about every outcome.
\<close>

record ob_draw =
  d_source :: nat
  d_target :: nat
  d_strength :: real
  d_norm :: nat
  d_ageJitter :: nat
  d_speedJitter :: real
  d_spawnDelay :: nat

text \<open>The constructor of \<^verbatim>\<open>ObligationVector\<close> (agent.js).\<close>

definition ObligationVector ::
  "env \<Rightarrow> ob_draw \<Rightarrow> agent_ref \<Rightarrow> agent_ref \<Rightarrow> real \<Rightarrow> string \<Rightarrow> vector" where
  "ObligationVector e d s t str n =
     \<lparr> source = Some s, target = Some t, strength = str, norm = n, status = Pending,
       age = 0, maxAge = er_expirationBase (cfg e) + d_ageJitter d,
       animT = 0,
       animSpeed = (case ob_animSpeed (cfg e) of Some x \<Rightarrow> x | None \<Rightarrow> 35 / 1000)
                     * (7 / 10 + d_speedJitter d),
       spawnFrame = now e + d_spawnDelay d,
       resolveOnArrival = True, resolvedAt = None,
       normType = None, fulfilled = False, expiration = None \<rparr>"

text \<open>\<^verbatim>\<open>random(normTypes)\<close>; of an empty array it is \<^verbatim>\<open>undefined\<close>.\<close>

definition pick_norm :: "config \<Rightarrow> nat \<Rightarrow> string" where
  "pick_norm c k = (if normTypes c = [] then ''undefined'' else pick (normTypes c) k)"

text \<open>
  The body of the loop: \<open>acc\<close> is \<^verbatim>\<open>obligationVectors\<close> so far, \<open>adv\<close> is
  \<^verbatim>\<open>advancedSettings.proximityThreshold\<close>.
\<close>

definition nearby_targets :: "env \<Rightarrow> real \<Rightarrow> sim \<Rightarrow> agent_ref \<Rightarrow> agent_ref list" where
  "nearby_targets e adv s src =
     (let proximity = (if adv \<noteq> 0 then adv else er_proximityThreshold (cfg e));
          nearby = filter (\<lambda>a. a \<noteq> src \<and> vdist e (pos (heap s a)) (pos (heap s src)) < proximity)
                     (agents s)
      in filter (\<lambda>a. pair_key (affiliation (heap s src)) (affiliation (heap s a)) \<notin> hostilePairs s)
           nearby)"

definition generate_iteration :: "env \<Rightarrow> real \<Rightarrow> sim \<Rightarrow> ob_draw \<Rightarrow> vector list \<Rightarrow> vector list" where
  "generate_iteration e adv s d acc =
     (let src = pick (agents s) (d_source d);
          nearby = nearby_targets e adv s src
      in if nearby = [] then acc
         else acc @ [ObligationVector e d src (pick nearby (d_target d)) (d_strength d)
                       (pick_norm (cfg e) (d_norm d))])"

definition vectorCount :: "config \<Rightarrow> sim \<Rightarrow> nat" where
  "vectorCount c s = min (length (agents s) * ob_countMultiplier c) (ob_maxVectors c)"

definition generateObligations :: "env \<Rightarrow> real \<Rightarrow> (nat \<Rightarrow> ob_draw) \<Rightarrow> sim \<Rightarrow> sim" where
  "generateObligations e adv draws s =
     (if length (agents s) < 2 then s\<lparr>obligationVectors := []\<rparr>
      else s\<lparr>obligationVectors :=
               fold (\<lambda>i acc. generate_iteration e adv s (draws i) acc)
                 [0 ..< vectorCount (cfg e) s] []\<rparr>)"

subsection \<open>updateGroupDynamics\<close>

text \<open>
  The keys of \<^verbatim>\<open>groupMembers\<close> in the order in which the loop over the agents
  creates them, and the members of a group. The labels are taken to be ordinary keys of
  an object: not written like an array index and not the name of a property that every
  object inherits. The labels that the sources build start with "pref_".
\<close>

definition add_key :: "string \<Rightarrow> string list \<Rightarrow> string list" where
  "add_key g gs = (if g \<in> set gs then gs else gs @ [g])"

definition group_keys :: "sim \<Rightarrow> string list" where
  "group_keys s = fold add_key (map (\<lambda>a. affiliation (heap s a)) (agents s)) []"

definition groupMembers :: "sim \<Rightarrow> string \<Rightarrow> agent_ref list" where
  "groupMembers s g = filter (\<lambda>a. affiliation (heap s a) = g) (agents s)"

text \<open>The pairs \<open>(groups[i], groups[j])\<close> with \<open>i < j\<close>, in the order of the two loops.\<close>

fun index_pairs :: "'a list \<Rightarrow> ('a \<times> 'a) list" where
  "index_pairs [] = []"
| "index_pairs (x # xs) = map (Pair x) xs @ index_pairs xs"

definition directed_trust :: "sim \<Rightarrow> agent_ref list \<Rightarrow> agent_ref list \<Rightarrow> real" where
  "directed_trust s as bs =
     sum_list (concat (map (\<lambda>a. map (\<lambda>b. trust_of (heap s a) b) bs) as))"

definition avgTrust :: "sim \<Rightarrow> string \<Rightarrow> string \<Rightarrow> real" where
  "avgTrust s g1 g2 =
     (let m1 = groupMembers s g1; m2 = groupMembers s g2;
          trustSum = directed_trust s m1 m2 + directed_trust s m2 m1;
          count = length m1 * length m2 + length m2 * length m1
      in if count > 0 then trustSum / real count else 0)"

text \<open>The body of the inner loop, on \<^verbatim>\<open>hostilePairs\<close> and \<^verbatim>\<open>mergeTargets\<close>.\<close>

definition dynamics_step ::
  "sim \<Rightarrow> string \<times> string \<Rightarrow> string set \<times> (string \<rightharpoonup> string)
     \<Rightarrow> string set \<times> (string \<rightharpoonup> string)" where
  "dynamics_step s p acc =
     (let g1 = fst p; g2 = snd p; hp = fst acc; mt = snd acc; av = avgTrust s g1 g2 in
      if av < 1 / 2 then (insert (pair_key g1 g2) hp, mt)
      else if av > 3 then
        (if length (groupMembers s g1) \<ge> length (groupMembers s g2)
         then (hp, mt(g2 \<mapsto> g1)) else (hp, mt(g1 \<mapsto> g2)))
      else (hp, mt))"

text \<open>
  The merges: every member of a group \<open>from\<close> with \<open>mergeTargets[from] = to\<close> gets the
  affiliation \<open>to\<close>. The groups are those computed at the start, each agent is in one of
  them, so the order of the entries of \<^verbatim>\<open>mergeTargets\<close> does not matter.
\<close>

definition apply_merges :: "sim \<Rightarrow> (string \<rightharpoonup> string) \<Rightarrow> agent_ref \<Rightarrow> agent" where
  "apply_merges s mt a =
     (if a \<in> set (agents s) then
        (case mt (affiliation (heap s a)) of
           Some to \<Rightarrow> (heap s a)\<lparr>affiliation := to\<rparr>
         | None \<Rightarrow> heap s a)
      else heap s a)"

definition updateGroupDynamics :: "sim \<Rightarrow> sim" where
  "updateGroupDynamics s =
     (let r = fold (dynamics_step s) (index_pairs (group_keys s)) ({}, Map.empty)
      in s\<lparr>hostilePairs := fst r, heap := apply_merges s (snd r)\<rparr>)"

subsection \<open>logGeneration (exporter.js)\<close>

definition count_status :: "status \<Rightarrow> (agent_ref \<times> status) list \<Rightarrow> nat" where
  "count_status st ledger = length (filter (\<lambda>p. snd p = st) ledger)"

text \<open>The entries of the ledger of \<open>a\<close> that the inter-group counters look at.\<close>

definition inter_entries :: "sim \<Rightarrow> agent_ref \<Rightarrow> (agent_ref \<times> status) list" where
  "inter_entries s a =
     filter (\<lambda>p. fst p \<in> set (agents s) \<and> affiliation (heap s a) \<noteq> [] \<and>
                 affiliation (heap s (fst p)) \<noteq> [] \<and>
                 affiliation (heap s a) \<noteq> affiliation (heap s (fst p)))
       (relationalLedger (heap s a))"

definition total_status :: "sim \<Rightarrow> status \<Rightarrow> nat" where
  "total_status s st = sum_list (map (\<lambda>a. count_status st (relationalLedger (heap s a))) (agents s))"

definition generation_entry :: "sim \<Rightarrow> gen_metrics" where
  "generation_entry s =
     (let issued = sum_list (map (\<lambda>a. length (relationalLedger (heap s a))) (agents s));
          tf = total_status s Fulfilled;
          td = total_status s Denied;
          te = total_status s Expired;
          tr = total_status s Repaired;
          totalDebt = td + te;
          interTotal = sum_list (map (\<lambda>a. length (inter_entries s a)) (agents s));
          interDenied = sum_list (map (\<lambda>a. length (filter (\<lambda>p. snd p = Denied \<or> snd p = Expired)
                                                       (inter_entries s a))) (agents s))
      in \<lparr> gm_generation = generation s,
           avgConflict = (if interTotal > 0 then real interDenied / real interTotal else 0),
           avgDebt = (if length (agents s) > 0 then real totalDebt / real (length (agents s)) else 0),
           totalObligationsIssued = issued,
           totalFulfilled = tf, totalDenied = td, totalExpired = te, totalRepaired = tr,
           fulfillmentRate = (if issued > 0 then real tf / real issued else 0),
           avgRI = (if tf + td + te > 0 then real tf / real (tf + td + te) else 0),
           repairEvents = tr,
           emergentNorms = card (set (filter (\<lambda>g. g \<noteq> []) (map (\<lambda>a. affiliation (heap s a)) (agents s)))) \<rparr>)"

definition logGeneration :: "sim \<Rightarrow> sim" where
  "logGeneration s = s\<lparr>metricsLog := metricsLog s @ [generation_entry s]\<rparr>"

subsection \<open>Death and reproduction (evolveGeneration)\<close>

definition deathChance :: "config \<Rightarrow> nat \<Rightarrow> agent \<Rightarrow> real" where
  "deathChance c g a =
     (let age = int g - int (birthGeneration a);
          conflictPenalty = min (real (internalConflict a) * dt_conflictWeight c) (1 / 10);
          oldAgeBoost = (if age > int (dt_ageThreshold c)
                         then dt_oldAgeBoost c * real_of_int (age - int (dt_ageThreshold c))
                         else 0)
      in dt_baseRate c + conflictPenalty + oldAgeBoost)"

text \<open>
  \<^verbatim>\<open>agents = agents.filter(...)\<close>: the agent at position \<open>i\<close> is removed when its
  draw \<open>draws i\<close> is below its death chance.
\<close>

definition deathPass :: "config \<Rightarrow> (nat \<Rightarrow> real) \<Rightarrow> sim \<Rightarrow> sim" where
  "deathPass c draws s =
     s\<lparr>agents := map snd (filter (\<lambda>p. \<not> draws (fst p) < deathChance c (generation s) (heap s (snd p)))
                             (enumerate 0 (agents s)))\<rparr>"

text \<open>
  The random values behind one parent: the draw that decides on reproduction, and for a
  child the draws per norm (by position in \<^verbatim>\<open>normTypes\<close>), for the preference, for
  the momentum (\<^verbatim>\<open>random(-0.1, 0.1)\<close>), and those of the constructor of \<^verbatim>\<open>Agent\<close>.
\<close>

record child_draw =
  cd_reproduce :: real
  cd_inherit :: "nat \<Rightarrow> real"
  cd_fresh :: "nat \<Rightarrow> real"
  cd_prefInherit :: real
  cd_prefPick :: nat
  cd_momentum :: real
  cd_ctorAck :: "string \<Rightarrow> real"
  cd_ctorPref :: nat
  cd_ctorPos :: "real \<times> real"
  cd_ctorMomentum :: real

text \<open>The constructor of \<^verbatim>\<open>Agent\<close> (agent.js), on the modelled fields.\<close>

definition Agent :: "config \<Rightarrow> child_draw \<Rightarrow> agent" where
  "Agent c d =
     (let pref = pick_norm c (cd_ctorPref d) in
      \<lparr> acks = (\<lambda>n. n \<in> set (normTypes c) \<and> cd_ctorAck d n > 1 / 2),
        normPreference = pref, scenarioGroup = pref, affiliation = ''pref_'' @ pref,
        pos = cd_ctorPos d, trustMap = Map.empty, relationalLedger = [],
        obligationAttempts = 0, obligationSuccesses = 0,
        contradictionDebt = 0, internalConflict = 0,
        culturalMomentum = cd_ctorMomentum d, birthGeneration = 0 \<rparr>)"

text \<open>\<^verbatim>\<open>constrain(x, lo, hi)\<close> of the graphics library.\<close>

definition constrain :: "real \<Rightarrow> real \<Rightarrow> real \<Rightarrow> real" where
  "constrain x lo hi = max (min x hi) lo"

definition make_child :: "config \<Rightarrow> nat \<Rightarrow> child_draw \<Rightarrow> agent \<Rightarrow> agent" where
  "make_child c g d parent =
     (let child = Agent c d;
          mutationRate = rp_mutationBase c + rp_maxConflictMutation c * real (internalConflict parent);
          child_acks = fold (\<lambda>p f. f(snd p := (if cd_inherit d (fst p) < 1 - mutationRate
                                                then acks parent (snd p)
                                                else cd_fresh d (fst p) > 1 / 2)))
                         (enumerate 0 (normTypes c)) (acks child)
      in child\<lparr> acks := child_acks,
                normPreference := (if cd_prefInherit d < rp_preferenceInheritance c
                                   then normPreference parent
                                   else pick_norm c (cd_prefPick d)),
                scenarioGroup := scenarioGroup parent,
                affiliation := affiliation parent,
                culturalMomentum :=
                  constrain ((if culturalMomentum parent \<noteq> 0 then culturalMomentum parent else 5 / 10)
                             + cd_momentum d) (1 / 10) 1,
                birthGeneration := g \<rparr>)"

text \<open>
  The loop over the parents. The accumulator holds \<^verbatim>\<open>offspring\<close>, the agent objects
  and \<^verbatim>\<open>globalAgentIndex\<close>; \<open>n\<close> is \<^verbatim>\<open>agents.length\<close>, which does not change
  during the loop.
\<close>

definition reproduce_step ::
  "config \<Rightarrow> nat \<Rightarrow> nat \<Rightarrow> (nat \<Rightarrow> child_draw) \<Rightarrow> nat \<times> agent_ref
     \<Rightarrow> agent_ref list \<times> (agent_ref \<Rightarrow> agent) \<times> nat
     \<Rightarrow> agent_ref list \<times> (agent_ref \<Rightarrow> agent) \<times> nat" where
  "reproduce_step c g n draws p acc =
     (let offspring = fst acc; h = fst (snd acc); gi = snd (snd acc); d = draws (fst p) in
      if cd_reproduce d < rp_chance c \<and> n + length offspring < numAgents c * 10
      then (offspring @ [gi], h(gi := make_child c g d (h (snd p))), Suc gi)
      else acc)"

definition reproduction :: "config \<Rightarrow> (nat \<Rightarrow> child_draw) \<Rightarrow> sim \<Rightarrow> sim" where
  "reproduction c draws s =
     (let r = fold (reproduce_step c (generation s) (length (agents s)) draws)
                (enumerate 0 (agents s)) ([], heap s, globalAgentIndex s)
      in s\<lparr>agents := agents s @ fst r, heap := fst (snd r), globalAgentIndex := snd (snd r)\<rparr>)"

text \<open>
  The population over a generation: \<^verbatim>\<open>evolveGeneration\<close> assigns the array
  \<^verbatim>\<open>agents\<close> in the death pass at its start and in the reproduction pass at its
  end. The passes between them change fields of the agents and the other variables, not
  the array; \<open>gi_between\<close> stands for what they do to the agent objects.
\<close>

record gen_input =
  gi_death :: "nat \<Rightarrow> real"
  gi_between :: "(agent_ref \<Rightarrow> agent) \<Rightarrow> (agent_ref \<Rightarrow> agent)"
  gi_children :: "nat \<Rightarrow> child_draw"

definition population_step :: "config \<Rightarrow> gen_input \<Rightarrow> sim \<Rightarrow> sim" where
  "population_step c i s =
     (let s1 = deathPass c (gi_death i) s;
          s2 = s1\<lparr>generation := generation s1 + 1, heap := gi_between i (heap s1)\<rparr>
      in reproduction c (gi_children i) s2)"

fun population_run :: "config \<Rightarrow> gen_input list \<Rightarrow> sim \<Rightarrow> sim" where
  "population_run c [] s = s"
| "population_run c (i # is) s = population_run c is (population_step c i s)"

subsection \<open>The callback onAddNorm\<close>

text \<open>\<^verbatim>\<open>toLowerCase()\<close> on the letters A to Z.\<close>

definition lower_char :: "char \<Rightarrow> char" where
  "lower_char ch =
     (case map_of (zip ''ABCDEFGHIJKLMNOPQRSTUVWXYZ'' ''abcdefghijklmnopqrstuvwxyz'') ch of
        Some l \<Rightarrow> l | None \<Rightarrow> ch)"

definition toLowerCase :: "string \<Rightarrow> string" where
  "toLowerCase n = map lower_char n"

text \<open>
  What the callback works on: the registry, the configuration (it extends
  \<^verbatim>\<open>SIM_CONFIG.normTypes\<close>), the palette \<^verbatim>\<open>COLORS.norms\<close> and the agents.
  \<open>draws i\<close> is the value of \<^verbatim>\<open>random()\<close> for the agent at position \<open>i\<close>. The update
  of the selector of the control panel is left out.
\<close>

record app =
  app_registry :: norm_registry
  app_config :: config
  app_colors :: "string \<rightharpoonup> nat list"
  app_sim :: sim

definition onAddNorm :: "string \<Rightarrow> nat list \<Rightarrow> (nat \<Rightarrow> real) \<Rightarrow> app \<Rightarrow> app" where
  "onAddNorm name rgb draws a =
     (if name = [] then a
      else
        (let lower = toLowerCase name in
         if lower \<in> set (normTypes (app_config a)) then a
         else
           a\<lparr> app_registry :=
                 registerNorm lower
                   \<lparr> color = rgb, enforceFn = DefaultWrapper, acknowledgeFn = (\<lambda>ag. acks ag lower) \<rparr>
                   (app_registry a),
              app_config := (app_config a)\<lparr>normTypes := normTypes (app_config a) @ [lower]\<rparr>,
              app_colors := (app_colors a)(lower \<mapsto> rgb),
              app_sim := (app_sim a)\<lparr>heap :=
                 fold (\<lambda>p h. h(snd p := (h (snd p))\<lparr>acks := (acks (h (snd p)))(lower := draws (fst p) > 1 / 2)\<rparr>))
                   (enumerate 0 (agents (app_sim a))) (heap (app_sim a))\<rparr> \<rparr>))"

section \<open>Notions used in the statements\<close>

text \<open>
  Repeated calls of \<^verbatim>\<open>defaultEnforce\<close> on one vector, one per simulation step, each
  with the generation of its step; the first error ends them.
\<close>

fun defaultEnforce_steps :: "env \<Rightarrow> nat list \<Rightarrow> world \<Rightarrow> js_error + world" where
  "defaultEnforce_steps e [] w = Inr w"
| "defaultEnforce_steps e (g # gs) w =
     (case defaultEnforce e g w of
        Inl err \<Rightarrow> Inl err
      | Inr w' \<Rightarrow> defaultEnforce_steps e gs w')"

text \<open>The "denied" records of a log.\<close>

definition denied_entries :: "log_entry list \<Rightarrow> log_entry list" where
  "denied_entries l = filter (\<lambda>x. le_status x = Denied) l"



definition repair_write :: "status option \<Rightarrow> status option \<Rightarrow> bool" where
  "repair_write old new =
     (new = old \<or> ((old = Some Denied \<or> old = Some Expired) \<and> new = Some Repaired))"

text \<open>\<^verbatim>\<open>a.relationalLedger.get(k)\<close> for the agent \<open>a\<close> of a store.\<close>

definition entry_of :: "(agent_ref \<Rightarrow> agent) \<Rightarrow> agent_ref \<Rightarrow> agent_ref \<Rightarrow> status option" where
  "entry_of h a k = map_of (relationalLedger (h a)) k"

text \<open>
  What holds of a vector that \<^verbatim>\<open>generateObligations\<close> has just created from the
  state \<open>s\<close>: both ends are agents of the population, the target is not the source, it
  is nearer than the proximity threshold, the key of the two affiliations is not in
  \<^verbatim>\<open>hostilePairs\<close>, and the vector is pending at age 0.
\<close>

definition well_sampled :: "env \<Rightarrow> real \<Rightarrow> sim \<Rightarrow> vector \<Rightarrow> bool" where
  "well_sampled e adv s v =
     (case (source v, target v) of
        (Some src, Some tgt) \<Rightarrow>
          src \<in> set (agents s) \<and> tgt \<in> set (agents s) \<and> tgt \<noteq> src \<and>
          vdist e (pos (heap s tgt)) (pos (heap s src))
            < (if adv \<noteq> 0 then adv else er_proximityThreshold (cfg e)) \<and>
          pair_key (affiliation (heap s src)) (affiliation (heap s tgt)) \<notin> hostilePairs s \<and>
          status v = Pending \<and> age v = 0
      | _ \<Rightarrow> False)"


text \<open>
  The world in which \<^verbatim>\<open>enforce\<close> calls the enforcement function: the vector has aged
  by one step and its line has advanced.
\<close>

definition arrival_world :: "env \<Rightarrow> world \<Rightarrow> world" where
  "arrival_world e w = w\<lparr>vec := stepAnimation e ((vec w)\<lparr>age := age (vec w) + 1\<rparr>)\<rparr>"

text \<open>
  The world that the enforcement function leaves when \<^verbatim>\<open>enforce\<close> calls it there (the
  world as it was when the function throws).
\<close>

definition policy_world :: "env \<Rightarrow> nat \<Rightarrow> world \<Rightarrow> world" where
  "policy_world e g w =
     (case call_enforceFn e g (select_enforceFn e (vec (arrival_world e w))) (arrival_world e w) of
        Inl err \<Rightarrow> arrival_world e w
      | Inr p \<Rightarrow> snd p)"

section \<open>Concrete inputs\<close>

text \<open>
  The inputs at which the theorems below are evaluated. The agents stand on the
  horizontal axis, where the distance is the difference of the first coordinates.
\<close>

definition flat_dist :: "real \<times> real \<Rightarrow> real \<times> real \<Rightarrow> real" where
  "flat_dist p q = \<bar>fst p - fst q\<bar>"

definition plain_agent :: "(string \<Rightarrow> bool) \<Rightarrow> real \<Rightarrow> agent" where
  "plain_agent ack x =
     \<lparr> acks = ack, normPreference = ''legal'', scenarioGroup = ''legal'',
       affiliation = ''pref_legal'', pos = (x, 0), trustMap = Map.empty, relationalLedger = [],
       obligationAttempts = 0, obligationSuccesses = 0, contradictionDebt = 0,
       internalConflict = 0, culturalMomentum = 1 / 2, birthGeneration = 0 \<rparr>"

definition demo_env :: env where
  "demo_env = \<lparr> registry = normRegistry, cfg = SIM_CONFIG, vdist = flat_dist, frameCount = Some 0 \<rparr>"

definition demo_vector :: "agent_ref option \<Rightarrow> agent_ref option \<Rightarrow> vector" where
  "demo_vector s t =
     \<lparr> source = s, target = t, strength = 1, norm = ''legal'', status = Pending,
       age = 0, maxAge = 10, animT = 0, animSpeed = 35 / 1000, spawnFrame = 0,
       resolveOnArrival = True, resolvedAt = None,
       normType = None, fulfilled = False, expiration = None \<rparr>"

text \<open>Agent \<open>i\<close> stands at \<open>(i, 0)\<close> and acknowledges the norm "legal" only.\<close>

definition legal_store :: "agent_ref \<Rightarrow> agent" where
  "legal_store i = plain_agent (\<lambda>n. n = ''legal'') (real i)"

definition demo_sim :: "agent_ref list \<Rightarrow> sim" where
  "demo_sim as =
     \<lparr> agents = as, heap = legal_store, obligationVectors = [], hostilePairs = {},
       obligationLog = [], metricsLog = [], generation = 0, globalAgentIndex = length as \<rparr>"

definition demo_draws :: "nat \<Rightarrow> ob_draw" where
  "demo_draws i =
     \<lparr> d_source = i, d_target = i, d_strength = 1 / 2, d_norm = i,
       d_ageJitter = 3, d_speedJitter = 3 / 10, d_spawnDelay = 0 \<rparr>"

text \<open>A norm definition that a caller could pass to \<^verbatim>\<open>registerNorm\<close>.\<close>

definition always_fulfilled :: norm_def where
  "always_fulfilled =
     \<lparr> color = [1, 2, 3], enforceFn = CustomRule (\<lambda>v g. Some ''fulfilled''),
       acknowledgeFn = (\<lambda>a. True) \<rparr>"

definition demo_app :: app where
  "demo_app =
     \<lparr> app_registry = normRegistry, app_config = SIM_CONFIG,
       app_colors = [''legal'' \<mapsto> [128, 0, 128], ''apriori'' \<mapsto> [0, 0, 255],
                     ''care'' \<mapsto> [0, 150, 0], ''epistemic'' \<mapsto> [255, 165, 0]],
       app_sim = demo_sim [0, 1] \<rparr>"

text \<open>Three agents; the ledgers hold one fulfilled, one denied and one expired entry.\<close>

definition metrics_store :: "agent_ref \<Rightarrow> agent" where
  "metrics_store i =
     (plain_agent (\<lambda>n. True) (real i))\<lparr>relationalLedger :=
        (if i = 0 then [(1, Fulfilled), (2, Denied)] else if i = 1 then [(0, Expired)] else [])\<rparr>"

definition metrics_sim :: sim where
  "metrics_sim = (demo_sim [0, 1, 2])\<lparr>heap := metrics_store\<rparr>"




text \<open>
  A vector as \<^verbatim>\<open>defaultEnforce\<close> reads it, with \<^verbatim>\<open>normType\<close> and
  \<^verbatim>\<open>expiration\<close> set, and scenario A with such a vector.
\<close>

definition policy_vector :: "string \<Rightarrow> agent_ref \<Rightarrow> agent_ref \<Rightarrow> vector" where
  "policy_vector n s t =
     (demo_vector (Some s) (Some t))\<lparr>norm := n, normType := Some n, expiration := Some 15\<rparr>"


text \<open>Scenario B: agent 0 acknowledges "care", agent 1 acknowledges nothing.\<close>

definition care_store :: "agent_ref \<Rightarrow> agent" where
  "care_store i = plain_agent (\<lambda>n. i = 0 \<and> n = ''care'') (real i)"

definition care_world :: world where
  "care_world = \<lparr> vec = policy_vector ''care'' 0 1, store = care_store, olog = [] \<rparr>"



text \<open>
  Three agents in two groups, agent 1 alone in the second; the key of the two groups is
  hostile.
\<close>

definition group_store :: "agent_ref \<Rightarrow> agent" where
  "group_store i =
     (plain_agent (\<lambda>n. True) (real i))\<lparr>affiliation := (if i = 1 then ''pref_care'' else ''pref_legal'')\<rparr>"

definition hostile_sim :: sim where
  "hostile_sim = (demo_sim [0, 1, 2])\<lparr>heap := group_store, hostilePairs := {''pref_care|pref_legal''}\<rparr>"




text \<open>
  A run in which every agent reproduces and none dies: one initial agent, so the cap is
  10, and the reproduction chance is 1.
\<close>

definition small_config :: config where
  "small_config = SIM_CONFIG\<lparr>numAgents := 1, rp_chance := 1\<rparr>"

definition eager_child :: child_draw where
  "eager_child =
     \<lparr> cd_reproduce = 0, cd_inherit = (\<lambda>j. 0), cd_fresh = (\<lambda>j. 1), cd_prefInherit = 0,
       cd_prefPick = 0, cd_momentum = 0, cd_ctorAck = (\<lambda>n. 1), cd_ctorPref = 0,
       cd_ctorPos = (0, 0), cd_ctorMomentum = 1 / 2 \<rparr>"

definition eager_generation :: gen_input where
  "eager_generation = \<lparr> gi_death = (\<lambda>i. 1), gi_between = (\<lambda>h. h), gi_children = (\<lambda>i. eager_child) \<rparr>"

text \<open>
  The application after a norm named "undefined" has been added through the control
  panel, every agent acknowledging it; the registry, the configuration and the agents
  that it leaves, and a vector from agent 0 to agent 1 whose line has arrived.
\<close>

definition undefined_app :: app where
  "undefined_app = onAddNorm ''undefined'' [1, 2, 3] (\<lambda>i. 1) demo_app"

definition undefined_env :: env where
  "undefined_env = demo_env\<lparr>registry := app_registry undefined_app, cfg := app_config undefined_app\<rparr>"

definition undefined_world :: world where
  "undefined_world =
     \<lparr> vec = (demo_vector (Some 0) (Some 1))\<lparr>animT := 1\<rparr>, store = heap (app_sim undefined_app),
       olog = [] \<rparr>"


section \<open>Properties\<close>

subsection \<open>Norm registry\<close>

lemma lower_Legal: "toLowerCase ''Legal'' = ''legal''"
  by (simp add: toLowerCase_def lower_char_def)

text \<open>
  C2, as the claim states it, fails: registering under a name that the registry
  already has is not rejected. Registering \<open>always_fulfilled\<close> as "legal" replaces
  the built-in definition, whose enforcement function is then another one.
\<close>

theorem registerNorm_duplicate_counterexample:
  "normRegistry ''legal'' \<noteq> None \<and>
   enforceFn (the (registerNorm ''legal'' always_fulfilled normRegistry ''legal''))
     \<noteq> enforceFn (the (normRegistry ''legal'')) \<and>
   registerNorm ''legal'' always_fulfilled normRegistry \<noteq> normRegistry"
proof -
  have a: "normRegistry ''legal'' \<noteq> None"
    by (simp add: normRegistry_def)
  have b: "enforceFn (the (registerNorm ''legal'' always_fulfilled normRegistry ''legal''))
     \<noteq> enforceFn (the (normRegistry ''legal''))"
    by (simp add: registerNorm_def normRegistry_def always_fulfilled_def builtin_norm_def)
  have c: "registerNorm ''legal'' always_fulfilled normRegistry \<noteq> normRegistry"
  proof
    assume "registerNorm ''legal'' always_fulfilled normRegistry = normRegistry"
    then have "enforceFn (the (registerNorm ''legal'' always_fulfilled normRegistry ''legal''))
       = enforceFn (the (normRegistry ''legal''))" by (rule arg_cong)
    with b show False by (rule notE)
  qed
  from a b c show ?thesis by simp
qed

text \<open>
  C2 (amended): \<^verbatim>\<open>registerNorm\<close> stores the new definition under the name, whether
  the name is present or not, and leaves the other names as they are; it never rejects.
  A duplicate is rejected by the callback \<^verbatim>\<open>onAddNorm\<close>: when the lower-cased name is
  already in \<^verbatim>\<open>normTypes\<close>, the callback returns and changes nothing.
\<close>

theorem registerNorm_overwrites:
  "registerNorm name spec reg name = Some spec \<and>
   (\<forall>n. n \<noteq> name \<longrightarrow> registerNorm name spec reg n = reg n) \<and>
   (toLowerCase name \<in> set (normTypes (app_config a)) \<longrightarrow> onAddNorm name rgb draws a = a)"
  by (simp add: registerNorm_def onAddNorm_def Let_def)

theorem registerNorm_overwrites_witness:
  "registerNorm ''legal'' always_fulfilled normRegistry ''legal'' = Some always_fulfilled \<and>
   registerNorm ''legal'' always_fulfilled normRegistry ''care'' = normRegistry ''care'' \<and>
   toLowerCase ''Legal'' \<in> set (normTypes (app_config demo_app)) \<and>
   onAddNorm ''Legal'' [9, 9, 9] (\<lambda>i. 0) demo_app = demo_app"
proof -
  have m: "toLowerCase ''Legal'' \<in> set (normTypes (app_config demo_app))"
    by (simp add: lower_Legal demo_app_def SIM_CONFIG_def)
  have d: "''care'' \<noteq> ''legal''" by simp
  note t1 = registerNorm_overwrites [of "''legal''" always_fulfilled normRegistry demo_app "[9, 9, 9]" "\<lambda>i. 0"]
  note t2 = registerNorm_overwrites [of "''Legal''" always_fulfilled normRegistry demo_app "[9, 9, 9]" "\<lambda>i. 0"]
  have a: "registerNorm ''legal'' always_fulfilled normRegistry ''legal'' = Some always_fulfilled"
    by (rule t1 [THEN conjunct1])
  have b: "registerNorm ''legal'' always_fulfilled normRegistry ''care'' = normRegistry ''care''"
    by (rule t1 [THEN conjunct2, THEN conjunct1, THEN spec, THEN mp, OF d])
  have c: "onAddNorm ''Legal'' [9, 9, 9] (\<lambda>i. 0) demo_app = demo_app"
    by (rule t2 [THEN conjunct2, THEN conjunct2, THEN mp, OF m])
  from a b m c show ?thesis by (intro conjI)
qed

subsection \<open>A vector without an endpoint\<close>

text \<open>
  C8: when the source or the target of a vector is missing, \<^verbatim>\<open>enforce\<close> returns at
  once: the vector (its status and age included), the agents with their ledgers and
  trust maps, and the obligation log are all as before.
\<close>

theorem enforce_missing_endpoint:
  "source (vec w) = None \<or> target (vec w) = None \<Longrightarrow> enforce e rnd g w = Inr w"
  by (auto simp: enforce_def split: option.splits)

theorem enforce_missing_endpoint_witness:
  "source (vec \<lparr> vec = demo_vector None (Some 1), store = legal_store, olog = [] \<rparr>) = None \<and>
   enforce demo_env 0 0 \<lparr> vec = demo_vector None (Some 1), store = legal_store, olog = [] \<rparr>
     = Inr \<lparr> vec = demo_vector None (Some 1), store = legal_store, olog = [] \<rparr>"
  using enforce_missing_endpoint
    [of "\<lparr> vec = demo_vector None (Some 1), store = legal_store, olog = [] \<rparr>" demo_env 0 0]
  by (simp add: demo_vector_def)

subsection \<open>Generation of obligations\<close>

text \<open>
  C10: with fewer than two agents \<^verbatim>\<open>generateObligations\<close> returns at once and leaves
  \<^verbatim>\<open>obligationVectors\<close> empty, so no obligation is created, a self-obligation
  included.
\<close>

theorem generateObligations_small_population:
  "length (agents s) < 2 \<Longrightarrow> obligationVectors (generateObligations e adv draws s) = []"
  by (simp add: generateObligations_def)

theorem generateObligations_small_population_witness:
  "length (agents (demo_sim [0])) < 2 \<and>
   obligationVectors (generateObligations demo_env 0 demo_draws (demo_sim [0])) = []"
  using generateObligations_small_population [of "demo_sim [0]" demo_env 0 demo_draws]
  by (simp add: demo_sim_def)

subsection \<open>Metrics\<close>

lemma count_status_le: "count_status st l \<le> length l"
  by (simp add: count_status_def)

lemma total_status_le_issued:
  "total_status s st \<le> sum_list (map (\<lambda>a. length (relationalLedger (heap s a))) (agents s))"
  unfolding total_status_def by (rule sum_list_mono) (simp add: count_status_le)

text \<open>
  C7: the record that \<^verbatim>\<open>logGeneration\<close> appends has its fulfilment rate and its
  relational integrity (\<^verbatim>\<open>avgRI\<close>) between 0 and 1; the first is the fulfilled total
  over the issued total, the second the fulfilled total over the sum of the fulfilled,
  denied and expired totals, and each is 0 when its denominator is 0.
\<close>

theorem metrics_ratios:
  "metricsLog (logGeneration s) = metricsLog s @ [generation_entry s] \<and>
   0 \<le> fulfillmentRate (generation_entry s) \<and> fulfillmentRate (generation_entry s) \<le> 1 \<and>
   0 \<le> avgRI (generation_entry s) \<and> avgRI (generation_entry s) \<le> 1 \<and>
   fulfillmentRate (generation_entry s) =
     (if totalObligationsIssued (generation_entry s) = 0 then 0
      else real (totalFulfilled (generation_entry s)) / real (totalObligationsIssued (generation_entry s))) \<and>
   avgRI (generation_entry s) =
     (if totalFulfilled (generation_entry s) + totalDenied (generation_entry s)
           + totalExpired (generation_entry s) = 0 then 0
      else real (totalFulfilled (generation_entry s)) /
           real (totalFulfilled (generation_entry s) + totalDenied (generation_entry s)
                 + totalExpired (generation_entry s)))"
proof -
  have le: "total_status s Fulfilled \<le> sum_list (map (\<lambda>a. length (relationalLedger (heap s a))) (agents s))"
    by (rule total_status_le_issued)
  show ?thesis
    using le by (auto simp: logGeneration_def generation_entry_def Let_def divide_le_eq_1)
qed

lemma metrics_sim_rate: "fulfillmentRate (generation_entry metrics_sim) = 1 / 3"
  by (simp add: generation_entry_def metrics_sim_def demo_sim_def metrics_store_def
        total_status_def count_status_def Let_def)

lemma metrics_sim_ri: "avgRI (generation_entry metrics_sim) = 1 / 3"
  by (simp add: generation_entry_def metrics_sim_def demo_sim_def metrics_store_def
        total_status_def count_status_def Let_def)

theorem metrics_ratios_witness:
  "fulfillmentRate (generation_entry metrics_sim) = 1 / 3 \<and>
   avgRI (generation_entry metrics_sim) = 1 / 3 \<and>
   0 \<le> fulfillmentRate (generation_entry metrics_sim) \<and>
   fulfillmentRate (generation_entry metrics_sim) \<le> 1 \<and>
   0 \<le> avgRI (generation_entry metrics_sim) \<and> avgRI (generation_entry metrics_sim) \<le> 1"
  using metrics_sim_rate metrics_sim_ri metrics_ratios [of metrics_sim] by simp

subsection \<open>Enforcement\<close>

lemma ledger_has_set [simp]: "ledger_has ((ledger_set s t st h) s) t"
  by (simp add: ledger_has_def ledger_set_def update_conv')

lemma ledger_set_lookup [simp]:
  "map_of (relationalLedger ((ledger_set s t st h) s)) t = Some st"
  by (simp add: ledger_set_def update_conv')

lemma defaultEnforce_first_denial:
  assumes "source (vec w) = Some s" "target (vec w) = Some t"
    and "registry e (prop_key (normType (vec w))) = Some nd"
    and "\<not> acknowledgeFn nd (store w s) \<or> \<not> acknowledgeFn nd (store w t)"
  shows "defaultEnforce e g w =
           Inr (if ledger_has (store w s) t then w
                else w\<lparr>store := ledger_set s t Denied (store w),
                       olog := olog w @ [mk_entry Denied (normType (vec w)) s t g]\<rparr>)"
  using assms by (auto simp: defaultEnforce_def Let_def)

lemma defaultEnforce_has_step:
  assumes "source (vec w) = Some s" "target (vec w) = Some t"
    and "registry e (prop_key (normType (vec w))) = Some nd"
    and "ledger_has (store w s) t"
  shows "\<exists>w'. defaultEnforce e g w = Inr w' \<and> source (vec w') = Some s \<and> target (vec w') = Some t \<and>
           normType (vec w') = normType (vec w) \<and> ledger_has (store w' s) t \<and>
           denied_entries (olog w') = denied_entries (olog w)"
  using assms
  by (auto simp: defaultEnforce_def Let_def denied_entries_def mk_entry_def ledger_has_def
        ledger_set_def update_conv')

lemma defaultEnforce_steps_no_denial:
  assumes "source (vec w) = Some s" "target (vec w) = Some t"
    and "registry e (prop_key (normType (vec w))) = Some nd"
    and "ledger_has (store w s) t"
  shows "\<exists>w'. defaultEnforce_steps e gs w = Inr w' \<and>
           denied_entries (olog w') = denied_entries (olog w)"
  using assms
proof (induction gs arbitrary: w)
  case Nil
  then show ?case by simp
next
  case (Cons g gs)
  from defaultEnforce_has_step [OF Cons.prems, of g]
  obtain w1 where w1: "defaultEnforce e g w = Inr w1" "source (vec w1) = Some s"
      "target (vec w1) = Some t" "normType (vec w1) = normType (vec w)"
      "ledger_has (store w1 s) t" "denied_entries (olog w1) = denied_entries (olog w)"
    by blast
  from w1(4) Cons.prems(3) have reg1: "registry e (prop_key (normType (vec w1))) = Some nd"
    by simp
  from Cons.IH [OF w1(2) w1(3) reg1 w1(5)]
  obtain w2 where "defaultEnforce_steps e gs w1 = Inr w2"
      "denied_entries (olog w2) = denied_entries (olog w1)" by blast
  with w1 show ?case by simp
qed


lemma recordTrust_ledger [simp]: "relationalLedger (recordTrust c i b a) = relationalLedger a"
  by (simp add: recordTrust_def Let_def)

lemma entry_of_ledger_set:
  "entry_of (ledger_set s t st h) a k = (if a = s \<and> k = t then Some st else entry_of h a k)"
  by (simp add: entry_of_def ledger_set_def update_conv')



lemma baseline_status_simps [simp]:
  "baseline_status e rnd s t w \<noteq> Pending"
  "baseline_status e rnd s t w \<noteq> Expired"
  "baseline_status e rnd s t w \<noteq> Repaired"
  "(baseline_status e rnd s t w \<noteq> Fulfilled) = (baseline_status e rnd s t w = Denied)"
  by (simp_all add: baseline_status_def Let_def)



lemma expire_vector_status [simp]: "status (vec (expire_vector e g s t w)) = Expired"
  by (simp add: expire_vector_def Let_def)


lemma record_resolution_status [simp]:
  "status (vec (record_resolution e g s t w)) = status (vec w)"
  by (simp add: record_resolution_def Let_def)


lemma stepAnimation_status [simp]: "status (stepAnimation e v) = status v"
  by (simp add: stepAnimation_def)






lemma repair_write_refl [simp]: "repair_write x x"
  by (simp add: repair_write_def)







lemma trustMap_ledger_update [simp]:
  "trust_of (a\<lparr>relationalLedger := l\<rparr>) j = trust_of a j"
  "trust_of (a\<lparr>obligationAttempts := n\<rparr>) j = trust_of a j"
  "trust_of (a\<lparr>obligationSuccesses := n\<rparr>) j = trust_of a j"
  by (simp_all add: trust_of_def)











text \<open>
  A vector that the constructor of agent.js builds has no \<^verbatim>\<open>normType\<close>: unless a
  norm is called "undefined", \<^verbatim>\<open>defaultEnforce\<close> throws on it, and so does
  \<^verbatim>\<open>enforce\<close> once the vector has arrived and its norm has the default enforcement
  function.
\<close>

lemma defaultEnforce_constructed_vector_throws:
  "registry e ''undefined'' = None \<Longrightarrow>
   defaultEnforce e g \<lparr> vec = ObligationVector e d s t str n, store = h, olog = l \<rparr> = Inl TypeError"
  by (simp add: defaultEnforce_def ObligationVector_def prop_key_def Let_def)

lemma enforce_builtin_policy_throws:
  assumes "source (vec w) = Some s" "target (vec w) = Some t" "status (vec w) = Pending"
    and "age (vec w) < maxAge (vec w)" and "\<not> resolveOnArrival (vec w) \<or> 1 \<le> animT (vec w)"
    and "normType (vec w) = None" and "registry e ''undefined'' = None"
    and "registry e (norm (vec w)) = None \<or>
         (\<exists>nd. registry e (norm (vec w)) = Some nd \<and> enforceFn nd = DefaultWrapper)"
  shows "enforce e rnd g w = Inl (TypeError, w\<lparr>vec := stepAnimation e ((vec w)\<lparr>age := age (vec w) + 1\<rparr>)\<rparr>)"
proof -
  let ?w2 = "w\<lparr>vec := stepAnimation e ((vec w)\<lparr>age := age (vec w) + 1\<rparr>)\<rparr>"
  have sel: "select_enforceFn e (vec ?w2) = DefaultWrapper"
    using assms(8) by (auto simp: select_enforceFn_def stepAnimation_def)
  have thr: "defaultEnforce e g ?w2 = Inl TypeError"
    using assms(1,2,6,7) by (simp add: defaultEnforce_def stepAnimation_def prop_key_def Let_def)
  have gate: "\<not> (resolveOnArrival (vec ?w2) \<and> animT (vec ?w2) < 1)"
    using assms(5) by (auto simp: stepAnimation_def)
  show ?thesis
    using assms(1-4) gate sel thr
    by (simp add: enforce_def Let_def call_enforceFn_def)
qed













lemma undefined_app_eval:
  "app_registry undefined_app = registerNorm ''undefined'' (builtin_norm [1, 2, 3] ''undefined'') normRegistry"
  "tg_increment (app_config undefined_app) = 1"
  "tg_decrement (app_config undefined_app) = 1"
  "er_proximityThreshold (app_config undefined_app) = 150"
  "heap (app_sim undefined_app) 0 = (legal_store 0)\<lparr>acks := (acks (legal_store 0))(''undefined'' := True)\<rparr>"
  "heap (app_sim undefined_app) 1 = (legal_store 1)\<lparr>acks := (acks (legal_store 1))(''undefined'' := True)\<rparr>"
  "heap (app_sim undefined_app) (Suc 0) = (legal_store 1)\<lparr>acks := (acks (legal_store 1))(''undefined'' := True)\<rparr>"
  by (simp_all add: undefined_app_def onAddNorm_def demo_app_def demo_sim_def SIM_CONFIG_def
        toLowerCase_def lower_char_def Let_def builtin_norm_def enumerate_eq_zip)


lemma undefined_policy_step:
  "defaultEnforce undefined_env 0 (arrival_world undefined_env undefined_world) =
     Inr \<lparr> vec = (demo_vector (Some 0) (Some 1))\<lparr>animT := 1, fulfilled := True, age := 2\<rparr>,
           store = ledger_set 0 1 Fulfilled
             ((heap (app_sim undefined_app))(0 := (heap (app_sim undefined_app) 0)\<lparr>obligationAttempts := 1,
                obligationSuccesses := 1, trustMap := [1 \<mapsto> 1]\<rparr>)),
           olog = [mk_entry Fulfilled None 0 1 0] \<rparr>"
  by (simp add: defaultEnforce_def arrival_world_def undefined_world_def undefined_env_def
        undefined_app_eval demo_vector_def stepAnimation_def Let_def demo_env_def registerNorm_def
        builtin_norm_def prop_key_def legal_store_def plain_agent_def flat_dist_def ledger_has_def
        trust_of_def)

lemma undefined_policy_world:
  "policy_world undefined_env 0 undefined_world =
     \<lparr> vec = (demo_vector (Some 0) (Some 1))\<lparr>animT := 1, fulfilled := True, age := 2\<rparr>,
           store = ledger_set 0 1 Fulfilled
             ((heap (app_sim undefined_app))(0 := (heap (app_sim undefined_app) 0)\<lparr>obligationAttempts := 1,
                obligationSuccesses := 1, trustMap := [1 \<mapsto> 1]\<rparr>)),
           olog = [mk_entry Fulfilled None 0 1 0] \<rparr>"
proof -
  have sel: "select_enforceFn undefined_env (vec (arrival_world undefined_env undefined_world)) = DefaultWrapper"
    by (simp add: select_enforceFn_def arrival_world_def undefined_world_def undefined_env_def
          undefined_app_eval demo_vector_def stepAnimation_def demo_env_def registerNorm_def
          normRegistry_def builtin_norm_def)
  show ?thesis
    by (simp add: policy_world_def sel call_enforceFn_def undefined_policy_step)
qed



text \<open>
  In the world with the norm named "undefined", \<^verbatim>\<open>defaultEnforce\<close> has itself
  raised the trust of the source toward the target before the resolution block of
  \<^verbatim>\<open>enforce\<close> runs.
\<close>

lemma undefined_world_double:
  "trust_of (store undefined_world 0) 1 = 0 \<and>
   trust_of (store (policy_world undefined_env 0 undefined_world) 0) 1 = 1"
  unfolding undefined_policy_world
  by (simp add: undefined_world_def undefined_app_eval legal_store_def plain_agent_def trust_of_def
        ledger_set_def)

text \<open>
  C4: \<^verbatim>\<open>defaultEnforce\<close> on a vector whose norm is registered and whose source or
  target does not acknowledge it returns with the vector and every agent but the source
  unchanged. When the ledger of the source has no entry for the target, the entry
  becomes "denied" and exactly one "denied" record is appended to the log; when it has
  one, nothing changes. After that, any number of further calls appends no "denied"
  record. For a norm registered with the default enforcement function, the method
  \<^verbatim>\<open>enforce(state)\<close> of the class that carries \<^verbatim>\<open>normType\<close> is this call.
\<close>

theorem defaultEnforce_denies_once:
  assumes src: "source (vec w) = Some s" and tgt: "target (vec w) = Some t"
    and reg: "registry e (prop_key (normType (vec w))) = Some nd"
    and nack: "\<not> acknowledgeFn nd (store w s) \<or> \<not> acknowledgeFn nd (store w t)"
  shows "(\<exists>w1. defaultEnforce e g w = Inr w1 \<and> vec w1 = vec w \<and>
           (\<forall>a. a \<noteq> s \<longrightarrow> store w1 a = store w a) \<and>
           (if ledger_has (store w s) t then w1 = w
            else entry_of (store w1) s t = Some Denied \<and>
                 olog w1 = olog w @ [mk_entry Denied (normType (vec w)) s t g]) \<and>
           (\<forall>gs. \<exists>w2. defaultEnforce_steps e gs w1 = Inr w2 \<and>
                    denied_entries (olog w2) = denied_entries (olog w1))) \<and>
         (enforceFn nd = DefaultWrapper \<longrightarrow> enforce_registry e g w = defaultEnforce e g w)"
proof -
  have deleg: "enforceFn nd = DefaultWrapper \<longrightarrow> enforce_registry e g w = defaultEnforce e g w"
    using reg by (simp add: enforce_registry_def)
  define w1 where "w1 = (if ledger_has (store w s) t then w
                else w\<lparr>store := ledger_set s t Denied (store w),
                       olog := olog w @ [mk_entry Denied (normType (vec w)) s t g]\<rparr>)"
  have run: "defaultEnforce e g w = Inr w1"
    unfolding w1_def by (rule defaultEnforce_first_denial [OF src tgt reg nack])
  have v: "vec w1 = vec w" by (simp add: w1_def)
  have others: "\<forall>a. a \<noteq> s \<longrightarrow> store w1 a = store w a"
    by (simp add: w1_def ledger_set_def)
  have first: "if ledger_has (store w s) t then w1 = w
            else entry_of (store w1) s t = Some Denied \<and>
                 olog w1 = olog w @ [mk_entry Denied (normType (vec w)) s t g]"
    by (simp add: w1_def entry_of_ledger_set)
  have has: "ledger_has (store w1 s) t"
    by (simp add: w1_def)
  have later: "\<forall>gs. \<exists>w2. defaultEnforce_steps e gs w1 = Inr w2 \<and>
                    denied_entries (olog w2) = denied_entries (olog w1)"
  proof
    fix gs
    show "\<exists>w2. defaultEnforce_steps e gs w1 = Inr w2 \<and>
                    denied_entries (olog w2) = denied_entries (olog w1)"
      using src tgt reg has v by (intro defaultEnforce_steps_no_denial [where s = s and t = t and nd = nd]) simp_all
  qed
  from run v others first later deleg show ?thesis by blast
qed

theorem defaultEnforce_denies_once_witness:
  "acks (store care_world 0) ''care'' \<and> \<not> acks (store care_world 1) ''care'' \<and>
   entry_of (store (projr (defaultEnforce demo_env 0 care_world))) 0 1 = Some Denied \<and>
   olog (projr (defaultEnforce demo_env 0 care_world)) = [mk_entry Denied (Some ''care'') 0 1 0] \<and>
   denied_entries (olog (projr (defaultEnforce_steps demo_env [0, 0, 1]
       (projr (defaultEnforce demo_env 0 care_world))))) = [mk_entry Denied (Some ''care'') 0 1 0]"
proof -
  have src: "source (vec care_world) = Some 0" and tgt: "target (vec care_world) = Some 1"
    by (simp_all add: care_world_def policy_vector_def demo_vector_def)
  have reg: "registry demo_env (prop_key (normType (vec care_world))) = Some (builtin_norm [0, 150, 0] ''care'')"
    by (simp add: care_world_def policy_vector_def demo_vector_def demo_env_def prop_key_def normRegistry_def)
  have ack0: "acks (store care_world 0) ''care''" and ack1: "\<not> acks (store care_world 1) ''care''"
    by (simp_all add: care_world_def care_store_def plain_agent_def)
  from ack1 have nack: "\<not> acknowledgeFn (builtin_norm [0, 150, 0] ''care'') (store care_world 0) \<or>
      \<not> acknowledgeFn (builtin_norm [0, 150, 0] ''care'') (store care_world 1)"
    by (simp add: builtin_norm_def)
  have nohas: "\<not> ledger_has (store care_world 0) 1"
    by (simp add: care_world_def care_store_def plain_agent_def ledger_has_def)
  have nt: "normType (vec care_world) = Some ''care''" and lg: "olog care_world = []"
    by (simp_all add: care_world_def policy_vector_def demo_vector_def)
  from defaultEnforce_denies_once [OF src tgt reg nack, of 0, THEN conjunct1]
  obtain w1 where run: "defaultEnforce demo_env 0 care_world = Inr w1"
    and first: "if ledger_has (store care_world 0) 1 then w1 = care_world
            else entry_of (store w1) 0 1 = Some Denied \<and>
                 olog w1 = olog care_world @ [mk_entry Denied (normType (vec care_world)) 0 1 0]"
    and later: "\<forall>gs. \<exists>w2. defaultEnforce_steps demo_env gs w1 = Inr w2 \<and>
                    denied_entries (olog w2) = denied_entries (olog w1)"
    by blast
  from first nohas nt lg have e1: "entry_of (store w1) 0 1 = Some Denied"
    and l1: "olog w1 = [mk_entry Denied (Some ''care'') 0 1 0]" by simp_all
  from later obtain w2 where steps: "defaultEnforce_steps demo_env [0, 0, 1] w1 = Inr w2"
    and same: "denied_entries (olog w2) = denied_entries (olog w1)" by blast
  have d1: "denied_entries (olog w1) = [mk_entry Denied (Some ''care'') 0 1 0]"
    by (simp add: l1 denied_entries_def mk_entry_def)
  from ack0 ack1 run e1 l1 steps same d1 show ?thesis by simp
qed


subsection \<open>Sampling of obligations\<close>

lemma pick_in_set: "xs \<noteq> [] \<Longrightarrow> pick xs k \<in> set xs"
  by (simp add: pick_def)

lemma generate_iteration_append:
  "generate_iteration e adv s d acc = acc @ generate_iteration e adv s d []"
  by (simp add: generate_iteration_def Let_def)

lemma fold_generate_iteration:
  "fold (\<lambda>i acc. generate_iteration e adv s (draws i) acc) js acc =
     acc @ concat (map (\<lambda>i. generate_iteration e adv s (draws i) []) js)"
proof (induction js arbitrary: acc)
  case Nil
  then show ?case by simp
next
  case (Cons j js)
  have "fold (\<lambda>i acc. generate_iteration e adv s (draws i) acc) (j # js) acc =
      generate_iteration e adv s (draws j) acc @
        concat (map (\<lambda>i. generate_iteration e adv s (draws i) []) js)"
    using Cons.IH [of "generate_iteration e adv s (draws j) acc"] by simp
  also have "generate_iteration e adv s (draws j) acc = acc @ generate_iteration e adv s (draws j) []"
    by (rule generate_iteration_append)
  finally show ?case by simp
qed

lemma generate_iteration_length: "length (generate_iteration e adv s d []) \<le> 1"
  by (simp add: generate_iteration_def Let_def)

lemma nearby_targets_set:
  "set (nearby_targets e adv s src) =
     {a \<in> set (agents s). a \<noteq> src \<and>
        vdist e (pos (heap s a)) (pos (heap s src)) < (if adv \<noteq> 0 then adv else er_proximityThreshold (cfg e)) \<and>
        pair_key (affiliation (heap s src)) (affiliation (heap s a)) \<notin> hostilePairs s}"
  by (auto simp: nearby_targets_def Let_def)

lemma generate_iteration_sampled:
  assumes "agents s \<noteq> []" and "v \<in> set (generate_iteration e adv s d [])"
  shows "well_sampled e adv s v"
proof -
  let ?src = "pick (agents s) (d_source d)"
  let ?near = "nearby_targets e adv s ?src"
  from assms(2) have ne: "?near \<noteq> []"
    and v: "v = ObligationVector e d ?src (pick ?near (d_target d)) (d_strength d) (pick_norm (cfg e) (d_norm d))"
    by (auto simp: generate_iteration_def Let_def split: if_splits)
  have "pick ?near (d_target d) \<in> set ?near" using ne by (rule pick_in_set)
  then have t: "pick ?near (d_target d) \<in> {a \<in> set (agents s). a \<noteq> ?src \<and>
        vdist e (pos (heap s a)) (pos (heap s ?src)) < (if adv \<noteq> 0 then adv else er_proximityThreshold (cfg e)) \<and>
        pair_key (affiliation (heap s ?src)) (affiliation (heap s a)) \<notin> hostilePairs s}"
    by (simp only: nearby_targets_set)
  have sr: "?src \<in> set (agents s)" using assms(1) by (rule pick_in_set)
  from t sr show ?thesis
    by (simp add: v well_sampled_def ObligationVector_def)
qed


lemma concat_length_bound:
  "(\<And>x. length (f x) \<le> 1) \<Longrightarrow> length (concat (map f xs)) \<le> length xs"
proof (induction xs)
  case Nil
  then show ?case by simp
next
  case (Cons x xs)
  from Cons.prems have "length (f x) \<le> 1" .
  moreover from Cons have "length (concat (map f xs)) \<le> length xs" by simp
  ultimately show ?case by simp
qed

lemma generateObligations_vectors:
  "2 \<le> length (agents s) \<Longrightarrow>
   obligationVectors (generateObligations e adv draws s) =
     concat (map (\<lambda>i. generate_iteration e adv s (draws i) []) [0 ..< vectorCount (cfg e) s])"
  by (simp add: generateObligations_def fold_generate_iteration)

lemma generateObligations_length:
  "length (obligationVectors (generateObligations e adv draws s))
     \<le> min (length (agents s) * ob_countMultiplier (cfg e)) (ob_maxVectors (cfg e))"
proof (cases "2 \<le> length (agents s)")
  case True
  have "length (concat (map (\<lambda>i. generate_iteration e adv s (draws i) []) [0 ..< vectorCount (cfg e) s]))
      \<le> length [0 ..< vectorCount (cfg e) s]"
    by (rule concat_length_bound) (rule generate_iteration_length)
  then show ?thesis using True by (simp add: generateObligations_vectors vectorCount_def)
next
  case False
  then show ?thesis by (simp add: generateObligations_def)
qed

lemma generateObligations_cleared:
  "obligationVectors (generateObligations e adv draws (s\<lparr>obligationVectors := old\<rparr>)) =
   obligationVectors (generateObligations e adv draws s)"
proof -
  have it: "generate_iteration e adv (s\<lparr>obligationVectors := old\<rparr>) = generate_iteration e adv s"
    by (intro ext) (simp add: generate_iteration_def nearby_targets_def)
  have vc: "vectorCount (cfg e) (s\<lparr>obligationVectors := old\<rparr>) = vectorCount (cfg e) s"
    by (simp add: vectorCount_def)
  show ?thesis by (simp add: generateObligations_def it vc)
qed

lemma generateObligations_sampled:
  assumes "v \<in> set (obligationVectors (generateObligations e adv draws s))"
  shows "well_sampled e adv s v"
proof (cases "2 \<le> length (agents s)")
  case True
  then have ne: "agents s \<noteq> []" by auto
  from assms obtain i where "v \<in> set (generate_iteration e adv s (draws i) [])"
    by (auto simp: generateObligations_vectors [OF True])
  with ne show ?thesis by (rule generate_iteration_sampled)
next
  case False
  with assms show ?thesis by (simp add: generateObligations_def)
qed

text \<open>
  C5: \<^verbatim>\<open>generateObligations\<close> discards the old vectors and makes
  \<open>min (agents.length * countMultiplier) maxVectors\<close> draws (none with fewer than two
  agents). Each draw takes a source from the population and keeps as candidate targets
  the agents other than the source that are nearer than the proximity threshold and
  whose affiliation does not form a key of \<^verbatim>\<open>hostilePairs\<close> with the affiliation
  of the source; it adds one vector, or none when no candidate is left, and the loop goes
  on to the next draw. So the result has at most that many vectors, and every vector
  in it joins two different agents within the threshold whose affiliations do not form
  a hostile pair. The draws are arbitrary values here; their distribution is not
  modelled.
\<close>

theorem generateObligations_sampling:
  "obligationVectors (generateObligations e adv draws (s\<lparr>obligationVectors := old\<rparr>)) =
     obligationVectors (generateObligations e adv draws s) \<and>
   length (obligationVectors (generateObligations e adv draws s))
     \<le> min (length (agents s) * ob_countMultiplier (cfg e)) (ob_maxVectors (cfg e)) \<and>
   (2 \<le> length (agents s) \<longrightarrow>
      obligationVectors (generateObligations e adv draws s) =
        concat (map (\<lambda>i. generate_iteration e adv s (draws i) []) [0 ..< vectorCount (cfg e) s])) \<and>
   length (generate_iteration e adv s d []) \<le> 1 \<and>
   (nearby_targets e adv s (pick (agents s) (d_source d)) = [] \<longrightarrow>
      generate_iteration e adv s d acc = acc) \<and>
   set (nearby_targets e adv s src) =
     {a \<in> set (agents s). a \<noteq> src \<and>
        vdist e (pos (heap s a)) (pos (heap s src))
          < (if adv \<noteq> 0 then adv else er_proximityThreshold (cfg e)) \<and>
        pair_key (affiliation (heap s src)) (affiliation (heap s a)) \<notin> hostilePairs s} \<and>
   (\<forall>v \<in> set (obligationVectors (generateObligations e adv draws s)). well_sampled e adv s v)"
proof -
  have skip: "nearby_targets e adv s (pick (agents s) (d_source d)) = [] \<longrightarrow>
      generate_iteration e adv s d acc = acc"
    by (simp add: generate_iteration_def Let_def)
  show ?thesis
    using generateObligations_cleared [where e = e and adv = adv and draws = draws and s = s and old = old]
      generateObligations_length [where e = e and adv = adv and draws = draws and s = s]
      generateObligations_vectors [where e = e and adv = adv and draws = draws and s = s]
      generate_iteration_length [where e = e and adv = adv and s = s and d = d]
      skip nearby_targets_set [where e = e and adv = adv and s = s and src = src]
      generateObligations_sampled [where e = e and adv = adv and draws = draws and s = s]
    by (intro conjI ballI impI) blast+
qed

lemma hostile_sim_vectors:
  "map (\<lambda>v. (source v, target v)) (obligationVectors (generateObligations demo_env 0 demo_draws hostile_sim))
     = [(Some 0, Some 2), (Some 2, Some 0), (Some 0, Some 2), (Some 2, Some 0)]"
  by (simp add: generateObligations_def hostile_sim_def demo_sim_def vectorCount_def demo_env_def
        SIM_CONFIG_def generate_iteration_def nearby_targets_def Let_def pick_def demo_draws_def
        group_store_def plain_agent_def flat_dist_def pair_key_def ObligationVector_def upt_rec)

theorem generateObligations_sampling_witness:
  "2 \<le> length (agents hostile_sim) \<and>
   pair_key (affiliation (heap hostile_sim 0)) (affiliation (heap hostile_sim 1)) \<in> hostilePairs hostile_sim \<and>
   nearby_targets demo_env 0 hostile_sim (pick (agents hostile_sim) (d_source (demo_draws 1))) = [] \<and>
   generate_iteration demo_env 0 hostile_sim (demo_draws 1) [] = [] \<and>
   map (\<lambda>v. (source v, target v)) (obligationVectors (generateObligations demo_env 0 demo_draws hostile_sim))
     = [(Some 0, Some 2), (Some 2, Some 0), (Some 0, Some 2), (Some 2, Some 0)] \<and>
   well_sampled demo_env 0 hostile_sim
     (hd (obligationVectors (generateObligations demo_env 0 demo_draws hostile_sim)))"
proof -
  note t = generateObligations_sampling [where e = demo_env and adv = 0 and draws = demo_draws
      and s = hostile_sim and d = "demo_draws 1" and acc = "[]"]
  have two: "2 \<le> length (agents hostile_sim)"
    by (simp add: hostile_sim_def demo_sim_def)
  have hp: "pair_key (affiliation (heap hostile_sim 0)) (affiliation (heap hostile_sim 1)) \<in> hostilePairs hostile_sim"
    by (simp add: hostile_sim_def demo_sim_def group_store_def plain_agent_def pair_key_def)
  have near: "nearby_targets demo_env 0 hostile_sim (pick (agents hostile_sim) (d_source (demo_draws 1))) = []"
    by (simp add: hostile_sim_def demo_sim_def group_store_def plain_agent_def pair_key_def
          nearby_targets_def Let_def pick_def demo_draws_def demo_env_def SIM_CONFIG_def flat_dist_def)
  from t near have skipped: "generate_iteration demo_env 0 hostile_sim (demo_draws 1) [] = []"
    by blast
  have "obligationVectors (generateObligations demo_env 0 demo_draws hostile_sim) \<noteq> []"
    using hostile_sim_vectors by auto
  then have "hd (obligationVectors (generateObligations demo_env 0 demo_draws hostile_sim))
      \<in> set (obligationVectors (generateObligations demo_env 0 demo_draws hostile_sim))"
    by (rule hd_in_set)
  with t have ws: "well_sampled demo_env 0 hostile_sim
     (hd (obligationVectors (generateObligations demo_env 0 demo_draws hostile_sim)))"
    by blast
  from two hp near skipped hostile_sim_vectors ws show ?thesis by (intro conjI)
qed


subsection \<open>Group dynamics\<close>



lemma updateGroupDynamics_agents [simp]: "agents (updateGroupDynamics s) = agents s"
  by (simp add: updateGroupDynamics_def Let_def)






















subsection \<open>Population\<close>

lemma reproduce_step_offspring:
  "fst (reproduce_step c g n draws p acc) =
     (if cd_reproduce (draws (fst p)) < rp_chance c \<and> n + length (fst acc) < numAgents c * 10
      then fst acc @ [snd (snd acc)] else fst acc)"
  by (simp add: reproduce_step_def Let_def)

lemma reproduce_fold:
  "\<exists>more. fst (fold (reproduce_step c g n draws) ps acc) = fst acc @ more \<and>
          length more \<le> length ps \<and>
          n + length (fst acc @ more) \<le> max (n + length (fst acc)) (numAgents c * 10)"
proof (induction ps arbitrary: acc)
  case Nil
  then show ?case by simp
next
  case (Cons p ps)
  let ?acc1 = "reproduce_step c g n draws p acc"
  from Cons.IH [of ?acc1] obtain more where m:
    "fst (fold (reproduce_step c g n draws) ps ?acc1) = fst ?acc1 @ more"
    "length more \<le> length ps"
    "n + length (fst ?acc1 @ more) \<le> max (n + length (fst ?acc1)) (numAgents c * 10)"
    by blast
  show ?case
  proof (cases "cd_reproduce (draws (fst p)) < rp_chance c \<and> n + length (fst acc) < numAgents c * 10")
    case True
    then have a1: "fst ?acc1 = fst acc @ [snd (snd acc)]"
      by (simp add: reproduce_step_offspring)
    from True m a1 show ?thesis
      by (intro exI [of _ "snd (snd acc) # more"]) auto
  next
    case False
    then have a1: "fst ?acc1 = fst acc" by (simp add: reproduce_step_offspring)
    from m a1 show ?thesis
      by (intro exI [of _ more]) auto
  qed
qed

lemma reproduction_agents:
  "\<exists>offspring. agents (reproduction c draws s) = agents s @ offspring \<and>
     length offspring \<le> length (agents s) \<and>
     length (agents s @ offspring) \<le> max (length (agents s)) (numAgents c * 10)"
proof -
  from reproduce_fold [of c "generation s" "length (agents s)" draws "enumerate 0 (agents s)"
      "([], heap s, globalAgentIndex s)"]
  obtain more where m:
    "fst (fold (reproduce_step c (generation s) (length (agents s)) draws) (enumerate 0 (agents s))
       ([], heap s, globalAgentIndex s)) = more"
    "length more \<le> length (agents s)"
    "length (agents s) + length more \<le> max (length (agents s)) (numAgents c * 10)"
    by auto
  then show ?thesis
    by (intro exI [of _ more]) (simp add: reproduction_def Let_def)
qed

lemma reproduction_bound:
  "length (agents s) \<le> numAgents c * 10 \<Longrightarrow> length (agents (reproduction c draws s)) \<le> numAgents c * 10"
  using reproduction_agents [of c draws s] by auto

lemma reproduction_prefix:
  "take (length (agents s)) (agents (reproduction c draws s)) = agents s"
  using reproduction_agents [of c draws s] by auto

lemma deathPass_length: "length (agents (deathPass c dd s)) \<le> length (agents s)"
proof -
  have "length (filter (\<lambda>p. \<not> dd (fst p) < deathChance c (generation s) (heap s (snd p)))
          (enumerate 0 (agents s))) \<le> length (enumerate 0 (agents s))"
    by (rule length_filter_le)
  then show ?thesis by (simp add: deathPass_def)
qed

lemma population_step_bound:
  assumes "length (agents s) \<le> numAgents c * 10"
  shows "length (agents (population_step c i s)) \<le> numAgents c * 10"
proof -
  let ?s1 = "deathPass c (gi_death i) s"
  let ?s2 = "?s1\<lparr>generation := generation ?s1 + 1, heap := gi_between i (heap ?s1)\<rparr>"
  have "length (agents ?s2) \<le> length (agents s)"
    using deathPass_length [of c "gi_death i" s] by simp
  with assms have "length (agents ?s2) \<le> numAgents c * 10" by simp
  then have "length (agents (reproduction c (gi_children i) ?s2)) \<le> numAgents c * 10"
    by (rule reproduction_bound)
  then show ?thesis by (simp add: population_step_def Let_def)
qed

lemma population_run_bound:
  "length (agents s) \<le> numAgents c * 10 \<Longrightarrow> length (agents (population_run c gens s)) \<le> numAgents c * 10"
proof (induction gens arbitrary: s)
  case Nil
  then show ?case by simp
next
  case (Cons i gens)
  from Cons.prems have "length (agents (population_step c i s)) \<le> numAgents c * 10"
    by (rule population_step_bound)
  then show ?case using Cons.IH by simp
qed


text \<open>
  C6: with the configuration fixed over the run and a population that starts at no more
  than ten times \<^verbatim>\<open>numAgents\<close> (the initial population has \<^verbatim>\<open>numAgents\<close>
  agents), the population never exceeds that cap, whatever the draws and whatever the
  passes between death and reproduction do to the agents. The death pass only removes
  agents; the reproduction pass keeps the parents in place and appends the offspring
  after them, and its loop creates a child only when the draw is below the chance and
  the parents together with the offspring created so far number less than the cap.
\<close>

theorem population_cap:
  "(length (agents s) \<le> numAgents c * 10 \<longrightarrow>
      length (agents (population_run c gens s)) \<le> numAgents c * 10) \<and>
   (length (agents s) \<le> numAgents c * 10 \<longrightarrow>
      length (agents (reproduction c draws s)) \<le> numAgents c * 10) \<and>
   length (agents (deathPass c dd s)) \<le> length (agents s) \<and>
   take (length (agents s)) (agents (reproduction c draws s)) = agents s \<and>
   fst (reproduce_step c g n draws p acc) =
     (if cd_reproduce (draws (fst p)) < rp_chance c \<and> n + length (fst acc) < numAgents c * 10
      then fst acc @ [snd (snd acc)] else fst acc)"
  using population_run_bound [of s c gens] reproduction_bound [of s c draws]
    deathPass_length [of c dd s] reproduction_prefix [of s c draws]
    reproduce_step_offspring [of c g n draws p acc]
  by (intro conjI impI)

lemma eager_step:
  "agents (population_step small_config eager_generation (demo_sim [0])) = [0, 1]"
  by (simp add: population_step_def deathPass_def reproduction_def reproduce_step_def Let_def
        small_config_def SIM_CONFIG_def eager_generation_def eager_child_def demo_sim_def
        deathChance_def legal_store_def plain_agent_def)


lemma eager_run:
  "agents (population_run small_config
      [eager_generation, eager_generation, eager_generation, eager_generation, eager_generation]
      (demo_sim [0])) = [0, 1, 2, 3, 4, 5, 6, 7, 8, 9]"
  by (simp add: population_step_def deathPass_def reproduction_def reproduce_step_def Let_def
        small_config_def SIM_CONFIG_def eager_generation_def eager_child_def demo_sim_def
        deathChance_def legal_store_def plain_agent_def make_child_def Agent_def)


theorem population_cap_witness:
  "length (agents (demo_sim [0])) \<le> numAgents small_config * 10 \<and>
   length (agents (population_run small_config
      [eager_generation, eager_generation, eager_generation, eager_generation, eager_generation]
      (demo_sim [0]))) = 10 \<and>
   length (agents (population_run small_config
      [eager_generation, eager_generation, eager_generation, eager_generation, eager_generation]
      (demo_sim [0]))) \<le> numAgents small_config * 10"
proof -
  have init: "length (agents (demo_sim [0])) \<le> numAgents small_config * 10"
    by (simp add: demo_sim_def small_config_def)
  note t = population_cap [where s = "demo_sim [0]" and c = small_config
      and gens = "[eager_generation, eager_generation, eager_generation, eager_generation, eager_generation]"]
  have bound: "length (agents (population_run small_config
      [eager_generation, eager_generation, eager_generation, eager_generation, eager_generation]
      (demo_sim [0]))) \<le> numAgents small_config * 10"
    by (rule t [THEN conjunct1, THEN mp, OF init])
  have ten: "length (agents (population_run small_config
      [eager_generation, eager_generation, eager_generation, eager_generation, eager_generation]
      (demo_sim [0]))) = 10"
    by (simp only: eager_run) simp
  show ?thesis by (intro conjI) (rule init ten bound)+
qed


end
